theory Spec2Isabelle
  imports Complex_Main
begin

section \<open>Data model\<close>

text \<open>
  The development covers the two React components of \<^verbatim>\<open>src/components/PriceChart.tsx\<close>:
  \<^verbatim>\<open>CryptoChart\<close> (the synthetic price series, its normalisation and its numeric readouts)
  and \<^verbatim>\<open>PriceChart\<close> (the sparkline's axis domain).

  In the simulator, the readouts and the sparkline a JavaScript \<^verbatim>\<open>number\<close> is modelled as
  an exact \<^typ>\<open>real\<close>, without the rounding of IEEE doubles; an index past the end of an
  array (\<^verbatim>\<open>undefined\<close>) is an explicit branch. The normalisation of the chart, where the
  program can reach \<^verbatim>\<open>NaN\<close> and the infinities, is modelled in double arithmetic with its
  rounding, overflow and underflow. Every call of \<^verbatim>\<open>Math.random()\<close> is a parameter of the
  model, a real \<open>r\<close> with \<open>0 \<le> r < 1\<close>.
\<close>

text \<open>
  Modelled from the spec: the declaration of \<^verbatim>\<open>CoinData\<close> lives in \<^verbatim>\<open>../types\<close>, which is
  not among the sources; the fields are the ones the spec lists for an instrument
  descriptor (\<^verbatim>\<open>id\<close> is written \<open>coin_id\<close>).
\<close>

record CoinData =
  coin_id :: string
  symbol :: string
  name :: string
  color :: string
  basePrice :: real
  currentPrice :: real
  balance :: real

text \<open>The two pieces of component state the claims are about: \<^verbatim>\<open>data\<close> and \<^verbatim>\<open>price\<close>.\<close>

record chart_state =
  data :: "real list"
  price :: real

definition maxPoints :: nat where
  "maxPoints = 80"

section \<open>The series simulator\<close>

text \<open>
  The reset effect (\<^verbatim>\<open>useEffect\<close> on \<^verbatim>\<open>[coin]\<close>). \<^verbatim>\<open>Array.from\<close> calls its callback once
  per index, so the \<open>i\<close>-th sample consumes the \<open>i\<close>-th draw \<open>rnd i\<close>.
\<close>

definition initialize :: "CoinData \<Rightarrow> (nat \<Rightarrow> real) \<Rightarrow> chart_state" where
  "initialize coin rnd =
     (let base = basePrice coin in
      if coin_id coin = ''GAFR'' then
        \<lparr>data = replicate maxPoints 0, price = 0\<rparr>
      else
        (let variance = base * 0.02;
             initData = map (\<lambda>i. base + (rnd i - 0.5) * variance) [0..<maxPoints]
         in \<lparr>data = initData, price = currentPrice coin\<rparr>))"

text \<open>The local constants of the random-walk branch of the tick callback.\<close>

definition volatility :: "CoinData \<Rightarrow> real" where
  "volatility coin = basePrice coin * 0.005"

definition change :: "CoinData \<Rightarrow> real \<Rightarrow> real" where
  "change coin r = (r - 0.5) * volatility coin"

definition minBound :: "CoinData \<Rightarrow> real" where
  "minBound coin = basePrice coin * 0.8"

definition maxBound :: "CoinData \<Rightarrow> real" where
  "maxBound coin = basePrice coin * 1.2"

text \<open>The two consecutive \<^verbatim>\<open>if\<close> statements that reassign \<^verbatim>\<open>newPrice\<close>.\<close>

definition soft_constrain :: "CoinData \<Rightarrow> real \<Rightarrow> real" where
  "soft_constrain coin newPrice0 =
     (let newPrice1 = (if newPrice0 < minBound coin then minBound coin + volatility coin
                       else newPrice0)
      in if newPrice1 > maxBound coin then maxBound coin - volatility coin else newPrice1)"

text \<open>
  \<^verbatim>\<open>prev[prev.length - 1] || coin.basePrice\<close>: the left operand is \<^verbatim>\<open>undefined\<close> for an empty
  array and is falsy when it is \<open>0\<close>.
\<close>

definition last_or_base :: "CoinData \<Rightarrow> real list \<Rightarrow> real" where
  "last_or_base coin prev =
     (if prev = [] then basePrice coin
      else if last prev = 0 then basePrice coin
      else last prev)"

text \<open>
  One run of the interval callback. A tick makes at most two draws: the random-walk branch
  uses the first only; the flatline branch uses the first for \<^verbatim>\<open>shouldFlicker\<close> and makes
  the second only when it flickers.
\<close>

definition advance :: "CoinData \<Rightarrow> real \<times> real \<Rightarrow> chart_state \<Rightarrow> chart_state" where
  "advance coin draws st =
     (if coin_id coin = ''GAFR'' then
        (let prev = data st;
             shouldFlicker = (fst draws > 0.95);
             val = (if shouldFlicker then (if snd draws > 0.5 then 0.01 else - 0.01) else 0)
         in \<lparr>data = drop 1 prev @ [val], price = 0\<rparr>)
      else
        (let prev = data st;
             lastv = last_or_base coin prev;
             newPrice = soft_constrain coin (lastv + change coin (fst draws))
         in \<lparr>data = drop 1 prev @ [newPrice], price = newPrice\<rparr>))"

text \<open>A sequence of ticks, oldest first.\<close>

fun run :: "CoinData \<Rightarrow> (real \<times> real) list \<Rightarrow> chart_state \<Rightarrow> chart_state" where
  "run coin [] st = st"
| "run coin (d # ds) st = run coin ds (advance coin d st)"

section \<open>Double arithmetic\<close>

text \<open>
  The normalisation of the chart is where the program can leave the finite numbers, so it is
  modelled in the arithmetic JavaScript really uses, IEEE 754 binary64 with rounding to
  nearest, ties to even. A number is a finite value, an infinity or \<^verbatim>\<open>NaN\<close>. The sign of
  zero is not modelled: it can only decide the sign of an infinity.
\<close>

datatype jsnum = Fin real | PInf | NInf | NaN

text \<open>Rounding to the nearest integer, ties to the even one.\<close>

definition rne :: "real \<Rightarrow> int" where
  "rne q =
     (let f = \<lfloor>q\<rfloor>; r = q - of_int f
      in if r < 1 / 2 then f
         else if r > 1 / 2 then f + 1
         else if even f then f else f + 1)"

text \<open>
  The unit in the last place of the binade of \<open>x\<close>: 53 significant bits, the exponent
  clipped at \<open>-1022\<close>, below which the doubles are subnormal with the fixed unit
  \<open>2 powi (-1074)\<close>.
\<close>

definition ulp :: "real \<Rightarrow> real" where
  "ulp x = 2 powi (max \<lfloor>log 2 \<bar>x\<bar>\<rfloor> (- 1022) - 52)"

definition nearest :: "real \<Rightarrow> real" where
  "nearest x = (if x = 0 then 0 else of_int (rne (x / ulp x)) * ulp x)"

text \<open>
  The largest double is \<open>2 ^ 1024 - 2 ^ 971\<close>; an exact result of magnitude at least
  \<open>2 ^ 1024 - 2 ^ 970\<close>, half a unit above it, rounds to an infinity.
\<close>

definition overflow_threshold :: real where
  "overflow_threshold = 2 ^ 1024 - 2 ^ 970"

definition fl :: "real \<Rightarrow> jsnum" where
  "fl x =
     (if \<bar>x\<bar> \<ge> overflow_threshold then (if x > 0 then PInf else NInf)
      else Fin (nearest x))"

text \<open>The finite doubles: the values that rounding leaves unchanged.\<close>

definition is_double :: "real \<Rightarrow> bool" where
  "is_double v \<longleftrightarrow> \<bar>v\<bar> < overflow_threshold \<and> nearest v = v"

text \<open>The operators \<^verbatim>\<open>-\<close>, \<^verbatim>\<open>*\<close>, \<^verbatim>\<open>/\<close>, \<^verbatim>\<open>>\<close> and \<^verbatim>\<open>===\<close> on numbers.\<close>

fun js_sub :: "jsnum \<Rightarrow> jsnum \<Rightarrow> jsnum" where
  "js_sub (Fin a) (Fin b) = fl (a - b)"
| "js_sub NaN y = NaN"
| "js_sub x NaN = NaN"
| "js_sub PInf PInf = NaN"
| "js_sub NInf NInf = NaN"
| "js_sub PInf y = PInf"
| "js_sub NInf y = NInf"
| "js_sub (Fin a) PInf = NInf"
| "js_sub (Fin a) NInf = PInf"

fun js_mul :: "jsnum \<Rightarrow> jsnum \<Rightarrow> jsnum" where
  "js_mul (Fin a) (Fin b) = fl (a * b)"
| "js_mul NaN y = NaN"
| "js_mul x NaN = NaN"
| "js_mul PInf (Fin b) = (if b = 0 then NaN else if b > 0 then PInf else NInf)"
| "js_mul NInf (Fin b) = (if b = 0 then NaN else if b > 0 then NInf else PInf)"
| "js_mul (Fin a) PInf = (if a = 0 then NaN else if a > 0 then PInf else NInf)"
| "js_mul (Fin a) NInf = (if a = 0 then NaN else if a > 0 then NInf else PInf)"
| "js_mul PInf PInf = PInf"
| "js_mul PInf NInf = NInf"
| "js_mul NInf PInf = NInf"
| "js_mul NInf NInf = PInf"

fun js_div :: "jsnum \<Rightarrow> jsnum \<Rightarrow> jsnum" where
  "js_div (Fin a) (Fin b) =
     (if b = 0 then (if a = 0 then NaN else if a > 0 then PInf else NInf)
      else fl (a / b))"
| "js_div NaN y = NaN"
| "js_div x NaN = NaN"
| "js_div (Fin a) PInf = Fin 0"
| "js_div (Fin a) NInf = Fin 0"
| "js_div PInf (Fin b) = (if b \<ge> 0 then PInf else NInf)"
| "js_div NInf (Fin b) = (if b \<ge> 0 then NInf else PInf)"
| "js_div PInf PInf = NaN"
| "js_div PInf NInf = NaN"
| "js_div NInf PInf = NaN"
| "js_div NInf NInf = NaN"

fun js_gt :: "jsnum \<Rightarrow> jsnum \<Rightarrow> bool" where
  "js_gt (Fin a) (Fin b) = (a > b)"
| "js_gt NaN y = False"
| "js_gt x NaN = False"
| "js_gt PInf PInf = False"
| "js_gt PInf y = True"
| "js_gt NInf y = False"
| "js_gt (Fin a) PInf = False"
| "js_gt (Fin a) NInf = True"

fun js_strict_eq :: "jsnum \<Rightarrow> jsnum \<Rightarrow> bool" where
  "js_strict_eq NaN y = False"
| "js_strict_eq x NaN = False"
| "js_strict_eq x y = (x = y)"

text \<open>A number is falsy when it is \<open>0\<close> or \<^verbatim>\<open>NaN\<close>.\<close>

fun truthy :: "jsnum \<Rightarrow> bool" where
  "truthy (Fin a) = (a \<noteq> 0)"
| "truthy NaN = False"
| "truthy PInf = True"
| "truthy NInf = True"

text \<open>
  \<^verbatim>\<open>Math.min(...xs)\<close> and \<^verbatim>\<open>Math.max(...xs)\<close> start from \<^verbatim>\<open>Infinity\<close> and
  \<^verbatim>\<open>-Infinity\<close>, their results for no argument, and answer \<^verbatim>\<open>NaN\<close> as soon as an argument
  is \<^verbatim>\<open>NaN\<close>.
\<close>

fun js_min2 :: "jsnum \<Rightarrow> jsnum \<Rightarrow> jsnum" where
  "js_min2 (Fin a) (Fin b) = Fin (min a b)"
| "js_min2 NaN y = NaN"
| "js_min2 x NaN = NaN"
| "js_min2 NInf y = NInf"
| "js_min2 x NInf = NInf"
| "js_min2 PInf y = y"
| "js_min2 x PInf = x"

fun js_max2 :: "jsnum \<Rightarrow> jsnum \<Rightarrow> jsnum" where
  "js_max2 (Fin a) (Fin b) = Fin (max a b)"
| "js_max2 NaN y = NaN"
| "js_max2 x NaN = NaN"
| "js_max2 PInf y = PInf"
| "js_max2 x PInf = PInf"
| "js_max2 NInf y = y"
| "js_max2 x NInf = x"

definition js_Math_min :: "jsnum list \<Rightarrow> jsnum" where
  "js_Math_min xs = fold js_min2 xs PInf"

definition js_Math_max :: "jsnum list \<Rightarrow> jsnum" where
  "js_Math_max xs = fold js_max2 xs NInf"

section \<open>The chart projector\<close>

subsection \<open>Normalisation\<close>

text \<open>
  \<^verbatim>\<open>const range = (max - min) || (coin.basePrice > 0 ? coin.basePrice * 0.0001 : 1)\<close>.
  The base price of an instrument is a finite number; the literal \<^verbatim>\<open>0.0001\<close> is the double
  nearest to it.
\<close>

definition chart_range :: "CoinData \<Rightarrow> jsnum \<Rightarrow> jsnum \<Rightarrow> jsnum" where
  "chart_range coin mn mx =
     (let diff = js_sub mx mn in
      if truthy diff then diff
      else if js_gt (Fin (basePrice coin)) (Fin 0)
           then js_mul (Fin (basePrice coin)) (fl 0.0001)
           else Fin 1)"

definition normalizedY :: "CoinData \<Rightarrow> jsnum \<Rightarrow> jsnum \<Rightarrow> jsnum \<Rightarrow> jsnum" where
  "normalizedY coin mn mx d = js_div (js_sub d mn) (chart_range coin mn mx)"

definition effectiveY :: "CoinData \<Rightarrow> jsnum \<Rightarrow> jsnum \<Rightarrow> jsnum \<Rightarrow> jsnum" where
  "effectiveY coin mn mx d =
     (if js_strict_eq mx mn then Fin 0.5 else normalizedY coin mn mx d)"

text \<open>
  The vertical coordinate of every point of the polyline, before it is scaled to pixels.
  For an empty window \<^verbatim>\<open>data.map\<close> visits no point.
\<close>

definition normalized_points :: "CoinData \<Rightarrow> jsnum list \<Rightarrow> jsnum list" where
  "normalized_points coin ds =
     (let mn = js_Math_min ds; mx = js_Math_max ds
      in map (effectiveY coin mn mx) ds)"

subsection \<open>Number formatting\<close>

text \<open>
  \<^verbatim>\<open>Number.prototype.toFixed\<close> as ECMAScript defines it, on the exact real value: the sign is
  split off, \<open>n\<close> is the integer nearest to \<open>x * 10 ^ f\<close> (the larger one on a tie), its
  decimal digits are padded with zeros to \<open>f + 1\<close> characters and the point is put before
  the last \<open>f\<close> of them. From \<open>10 ^ 21\<close> on ECMAScript answers with the exponential
  notation of \<^verbatim>\<open>ToString\<close> instead, which depends on the binary representation and is
  \<open>None\<close> here.
\<close>

fun digits_of :: "nat \<Rightarrow> string" where
  "digits_of n =
     (if n < 10 then [''0123456789'' ! n]
      else digits_of (n div 10) @ [''0123456789'' ! (n mod 10)])"

declare digits_of.simps [simp del]

definition toFixed :: "nat \<Rightarrow> real \<Rightarrow> string option" where
  "toFixed f x0 =
     (let s = (if x0 < 0 then ''-'' else []);
          x = \<bar>x0\<bar>
      in if x \<ge> 10 ^ 21 then None
         else
           (let n = nat \<lfloor>x * 10 ^ f + 1 / 2\<rfloor>;
                m0 = digits_of n;
                m = (if f \<noteq> 0 then
                       (let k0 = length m0;
                            m1 = (if k0 \<le> f then replicate (f + 1 - k0) (CHR ''0'') @ m0
                                  else m0);
                            k = length m1
                        in take (k - f) m1 @ ''.'' @ drop (k - f) m1)
                     else m0)
            in Some (s @ m)))"

text \<open>The readouts of \<^verbatim>\<open>CryptoChart\<close>, as functions of the state variables they read.\<close>

definition percentChange :: "real \<Rightarrow> real list \<Rightarrow> string option" where
  "percentChange p ds =
     (if length ds > 0 \<and> ds ! 0 \<noteq> 0 then toFixed 2 ((p - ds ! 0) / ds ! 0 * 100)
      else Some ''0.00'')"

definition priceDisplay :: "CoinData \<Rightarrow> real \<Rightarrow> string option" where
  "priceDisplay coin p =
     (if coin_id coin = ''GAFR'' then Some ''0.00''
      else if p < 1 then toFixed 8 p else toFixed 2 p)"

section \<open>The sparkline\<close>

text \<open>
  \<^verbatim>\<open>Math.min(...xs)\<close> and \<^verbatim>\<open>Math.max(...xs)\<close>. With no argument JavaScript returns
  \<^verbatim>\<open>Infinity\<close> and \<^verbatim>\<open>-Infinity\<close>, which is \<open>None\<close> here.
\<close>

definition Math_min :: "real list \<Rightarrow> real option" where
  "Math_min xs = (case xs of [] \<Rightarrow> None | x # ys \<Rightarrow> Some (fold min ys x))"

definition Math_max :: "real list \<Rightarrow> real option" where
  "Math_max xs = (case xs of [] \<Rightarrow> None | x # ys \<Rightarrow> Some (fold max ys x))"

text \<open>
  Modelled from the spec: the declaration of \<^verbatim>\<open>PricePoint\<close> lives in \<^verbatim>\<open>../types\<close>; the
  component reads its fields \<^verbatim>\<open>time\<close> and \<^verbatim>\<open>value\<close> (written \<open>pp_value\<close>).
\<close>

record PricePoint =
  time :: string
  pp_value :: real

text \<open>
  The \<^verbatim>\<open>domain\<close> that \<^verbatim>\<open>PriceChart\<close> gives its vertical axis. Without data the component
  returns the loading placeholder and computes no domain (\<open>None\<close>).
\<close>

definition PriceChart_domain :: "PricePoint list \<Rightarrow> bool \<Rightarrow> (real \<times> real) option" where
  "PriceChart_domain pdata detailed =
     (if length pdata = 0 then None
      else
        (let prices = map pp_value pdata in
         case (Math_min prices, Math_max prices) of
           (Some lo, Some hi) \<Rightarrow>
             Some (lo * (if detailed then 0.999 else 0.99),
                   hi * (if detailed then 1.001 else 1.01))
         | _ \<Rightarrow> None))"

section \<open>Example instruments\<close>

text \<open>
  A normal-class instrument with base price 100 (the one of the spec's end-to-end property)
  and the flatline instrument.
\<close>

definition coin_100 :: CoinData where
  "coin_100 = \<lparr>coin_id = ''BTC'', symbol = ''BTC'', name = ''Bitcoin'', color = ''#f7931a'',
               basePrice = 100, currentPrice = 100, balance = 0\<rparr>"

definition coin_gafr :: CoinData where
  "coin_gafr = \<lparr>coin_id = ''GAFR'', symbol = ''GAFR'', name = ''Gaffer'', color = ''#00B2B2'',
                basePrice = 0, currentPrice = 0, balance = 0\<rparr>"

section \<open>Window length\<close>

lemma length_initialize: "length (data (initialize coin rnd)) = maxPoints"
  by (simp add: initialize_def Let_def)

lemma data_advance: "\<exists>v. data (advance coin d st) = drop 1 (data st) @ [v]"
  by (simp add: advance_def Let_def)

lemma length_advance:
  assumes "length (data st) = Suc n"
  shows "length (data (advance coin d st)) = Suc n"
proof -
  obtain v where "data (advance coin d st) = drop 1 (data st) @ [v]"
    using data_advance by blast
  with assms show ?thesis by simp
qed

lemma length_run:
  "length (data st) = Suc n \<Longrightarrow> length (data (run coin ticks st)) = Suc n"
proof (induction ticks arbitrary: st)
  case Nil
  then show ?case by simp
next
  case (Cons d ticks)
  from Cons.prems have "length (data (advance coin d st)) = Suc n"
    by (rule length_advance)
  then show ?case using Cons.IH by simp
qed

text \<open>
  Claim C4. The window holds exactly \<open>N = 80\<close> samples after \<open>initialize\<close>, for the flatline
  and for the normal class alike, and still holds exactly \<open>N\<close> after any sequence of ticks;
  a tick drops the oldest sample and appends one new sample at the end.
\<close>

theorem window_length_is_maxPoints:
  "maxPoints = 80
   \<and> length (data (initialize coin rnd)) = maxPoints
   \<and> length (data (run coin ticks (initialize coin rnd))) = maxPoints
   \<and> (\<exists>v. data (advance coin d st) = drop 1 (data st) @ [v])"
proof -
  have m: "maxPoints = Suc 79" by (simp add: maxPoints_def)
  have "length (data (initialize coin rnd)) = Suc 79"
    using length_initialize m by simp
  then have "length (data (run coin ticks (initialize coin rnd))) = Suc 79"
    by (rule length_run)
  then show ?thesis
    using m length_initialize data_advance by (simp add: maxPoints_def)
qed

section \<open>The random walk stays in its band\<close>

lemma soft_constrain_in_band:
  assumes "0 \<le> basePrice coin"
  shows "minBound coin \<le> soft_constrain coin p \<and> soft_constrain coin p \<le> maxBound coin"
  using assms
  by (simp add: soft_constrain_def minBound_def maxBound_def volatility_def Let_def)

lemma data_advance_normal:
  "coin_id coin \<noteq> ''GAFR'' \<Longrightarrow>
   data (advance coin d st) =
     drop 1 (data st) @ [soft_constrain coin (last_or_base coin (data st) + change coin (fst d))]"
  by (simp add: advance_def Let_def)

lemma price_advance_normal:
  "coin_id coin \<noteq> ''GAFR'' \<Longrightarrow>
   price (advance coin d st) =
     soft_constrain coin (last_or_base coin (data st) + change coin (fst d))"
  by (simp add: advance_def Let_def)

text \<open>
  Claim C1. For a normal-class instrument with a non-negative base price, the sample that a
  tick appends lies in \<open>[0.8 * basePrice, 1.2 * basePrice]\<close>, whatever the window was before
  (reachable or not) and whatever the draw is; the price readout is that same sample.
\<close>

theorem advance_normal_within_band:
  assumes "coin_id coin \<noteq> ''GAFR''" and "0 \<le> basePrice coin"
  shows "0.8 * basePrice coin \<le> last (data (advance coin d st))
       \<and> last (data (advance coin d st)) \<le> 1.2 * basePrice coin
       \<and> price (advance coin d st) = last (data (advance coin d st))"
proof -
  let ?p = "soft_constrain coin (last_or_base coin (data st) + change coin (fst d))"
  have "last (data (advance coin d st)) = ?p"
    using assms(1) by (simp add: data_advance_normal)
  moreover have "price (advance coin d st) = ?p"
    using assms(1) by (rule price_advance_normal)
  moreover have "minBound coin \<le> ?p \<and> ?p \<le> maxBound coin"
    using assms(2) by (rule soft_constrain_in_band)
  ultimately show ?thesis
    by (simp add: minBound_def maxBound_def mult.commute)
qed

text \<open>
  At base price 100 a window ending in 80 and the draw 0 would give 79.75, which is reset to
  \<open>minBound + volatility = 80.5\<close>.
\<close>

theorem advance_normal_within_band_witness:
  "coin_id coin_100 \<noteq> ''GAFR'' \<and> 0 \<le> basePrice coin_100
   \<and> last (data (advance coin_100 (0, 0) \<lparr>data = [80], price = 80\<rparr>)) = 80.5
   \<and> 0.8 * basePrice coin_100 \<le> last (data (advance coin_100 (0, 0) \<lparr>data = [80], price = 80\<rparr>))
   \<and> last (data (advance coin_100 (0, 0) \<lparr>data = [80], price = 80\<rparr>)) \<le> 1.2 * basePrice coin_100"
proof -
  have a: "coin_id coin_100 \<noteq> ''GAFR''" by (simp add: coin_100_def)
  have b: "0 \<le> basePrice coin_100" by (simp add: coin_100_def)
  have c: "last (data (advance coin_100 (0, 0) \<lparr>data = [80], price = 80\<rparr>)) = 80.5"
    by (simp add: advance_def coin_100_def last_or_base_def change_def volatility_def
        soft_constrain_def minBound_def maxBound_def Let_def)
  show ?thesis
    using a b c
      advance_normal_within_band [OF a b, of "(0, 0)" "\<lparr>data = [80], price = 80\<rparr>"]
    by simp
qed

section \<open>The per-tick change\<close>

lemma change_bounds:
  assumes "0 \<le> basePrice coin" and "0 \<le> r" and "r < 1"
  shows "- 0.0025 * basePrice coin \<le> change coin r
       \<and> change coin r \<le> 0.0025 * basePrice coin"
proof -
  have "0 \<le> r * basePrice coin" using assms by simp
  moreover have "r * basePrice coin \<le> basePrice coin"
    using assms by (simp add: mult_left_le_one_le)
  ultimately show ?thesis by (simp add: change_def volatility_def field_simps)
qed

lemma change_attains:
  assumes "0 < basePrice coin"
    and "- 0.0025 * basePrice coin \<le> v" and "v < 0.0025 * basePrice coin"
  shows "\<exists>r. 0 \<le> r \<and> r < 1 \<and> change coin r = v"
proof -
  let ?r = "(v + 0.0025 * basePrice coin) / (0.005 * basePrice coin)"
  have lo: "0 \<le> ?r" using assms(1,2) by simp
  have hi: "?r < 1" using assms(1,3) by (simp add: field_simps)
  have "change coin ?r = v"
    using assms(1) by (simp add: change_def volatility_def field_simps)
  with lo hi show ?thesis by blast
qed

lemma change_at_extreme_draws:
  "change coin_100 0 = - 0.25 \<and> change coin_100 (999 / 1000) = 0.2495"
  by (simp add: change_def volatility_def coin_100_def)

text \<open>
  Claim C2 (the per-tick change is drawn from the whole interval \<open>[-0.5%, +0.5%]\<close> of the
  base price, every value of it being attainable) does not hold of the code, although the
  source's comment on \<^verbatim>\<open>volatility\<close> announces it (\<^verbatim>\<open>0.5% max move per tick\<close>). The
  code centres the draw by subtracting 0.5 and multiplies by \<^verbatim>\<open>volatility\<close> without
  doubling, so the change stays within \<open>[-0.25%, +0.25%]\<close> of the base price
  (\<open>change_bounds\<close>, \<open>change_attains\<close>). At base price 100 the draw \<open>0.9\<close>, which
  is 0.4 on the announced interval, moves the price by 0.2; no draw moves it by more than
  0.25, and so none by 0.4.
\<close>

theorem change_confined_to_quarter_percent:
  "change coin_100 (9 / 10) = 0.2
   \<and> \<not> (\<exists>r. 0 \<le> r \<and> r < 1 \<and> 0.25 < \<bar>change coin_100 r\<bar>)
   \<and> \<not> (\<exists>r. 0 \<le> r \<and> r < 1 \<and> change coin_100 r = 0.4)"
proof -
  have b: "0 \<le> basePrice coin_100" by (simp add: coin_100_def)
  have bound: "\<bar>change coin_100 r\<bar> \<le> 0.25" if "0 \<le> r" and "r < 1" for r
  proof -
    have "- 0.0025 * basePrice coin_100 \<le> change coin_100 r
          \<and> change coin_100 r \<le> 0.0025 * basePrice coin_100"
      using b that by (rule change_bounds)
    then show ?thesis unfolding abs_le_iff by (simp add: coin_100_def)
  qed
  have one: "change coin_100 (9 / 10) = 0.2"
    by (simp add: change_def volatility_def coin_100_def)
  have two: "\<not> (\<exists>r. 0 \<le> r \<and> r < 1 \<and> 0.25 < \<bar>change coin_100 r\<bar>)"
  proof
    assume "\<exists>r. 0 \<le> r \<and> r < 1 \<and> 0.25 < \<bar>change coin_100 r\<bar>"
    then obtain r where r: "0 \<le> r" "r < 1" and big: "0.25 < \<bar>change coin_100 r\<bar>"
      by blast
    from r have "\<bar>change coin_100 r\<bar> \<le> 0.25" by (rule bound)
    with big show False by simp
  qed
  have three: "\<not> (\<exists>r. 0 \<le> r \<and> r < 1 \<and> change coin_100 r = 0.4)"
  proof
    assume "\<exists>r. 0 \<le> r \<and> r < 1 \<and> change coin_100 r = 0.4"
    then obtain r where r: "0 \<le> r" "r < 1" and e: "change coin_100 r = 0.4" by blast
    from r have "\<bar>change coin_100 r\<bar> \<le> 0.25" by (rule bound)
    with e show False by simp
  qed
  from one two three show ?thesis by blast
qed

section \<open>Seeding the window\<close>

lemma nth_initialize_normal:
  assumes "coin_id coin \<noteq> ''GAFR''" and "i < maxPoints"
  shows "data (initialize coin rnd) ! i
           = basePrice coin + (rnd i - 0.5) * (basePrice coin * 0.02)"
  using assms by (simp add: initialize_def Let_def)

lemma seed_sample_bounds:
  fixes b r :: real
  assumes "0 \<le> b" and "0 \<le> r" and "r < 1"
  shows "0.99 * b \<le> b + (r - 0.5) * (b * 0.02) \<and> b + (r - 0.5) * (b * 0.02) \<le> 1.01 * b"
proof -
  have "0 \<le> r * b" using assms by simp
  moreover have "r * b \<le> b" using assms by (simp add: mult_left_le_one_le)
  ultimately show ?thesis by (simp add: field_simps)
qed

lemma seed_sample_attains:
  fixes b v :: real
  assumes "0 < b" and "0.99 * b \<le> v" and "v < 1.01 * b"
  shows "\<exists>r. 0 \<le> r \<and> r < 1 \<and> b + (r - 0.5) * (b * 0.02) = v"
proof -
  let ?r = "(v - 0.99 * b) / (0.02 * b)"
  have lo: "0 \<le> ?r" using assms(1,2) by simp
  have hi: "?r < 1" using assms(1,3) by (simp add: field_simps)
  have "b + (?r - 0.5) * (b * 0.02) = v"
    using assms(1) by (simp add: field_simps)
  with lo hi show ?thesis by blast
qed

text \<open>
  Claim C3, as stated, fails: a sample is \<open>basePrice + (r - 0.5) * (0.02 * basePrice)\<close>, so
  \<^verbatim>\<open>variance\<close> is the total width of the band and not its half-width. At base price 100
  the value 101.5 lies well inside the claimed band \<open>100 \<plusminus> 2\<close>, and no vector of draws
  seeds it.
\<close>

theorem seed_beyond_one_percent_unattainable:
  "\<bar>101.5 - basePrice coin_100\<bar> \<le> 0.02 * basePrice coin_100
   \<and> \<not> (\<exists>rnd. (\<forall>i. 0 \<le> rnd i \<and> rnd i < 1)
              \<and> 101.5 \<in> set (data (initialize coin_100 rnd)))"
proof
  show "\<bar>101.5 - basePrice coin_100\<bar> \<le> 0.02 * basePrice coin_100"
    by (simp add: coin_100_def)
  show "\<not> (\<exists>rnd. (\<forall>i. 0 \<le> rnd i \<and> rnd i < 1)
              \<and> 101.5 \<in> set (data (initialize coin_100 rnd)))"
  proof
    assume "\<exists>rnd. (\<forall>i. 0 \<le> rnd i \<and> rnd i < 1)
              \<and> 101.5 \<in> set (data (initialize coin_100 rnd))"
    then obtain rnd where r: "\<forall>i. 0 \<le> rnd i \<and> rnd i < 1"
      and m: "101.5 \<in> set (data (initialize coin_100 rnd))" by blast
    from m obtain i where i: "i < maxPoints"
      and e: "data (initialize coin_100 rnd) ! i = 101.5"
      using length_initialize [of coin_100 rnd] by (auto simp: in_set_conv_nth)
    have "data (initialize coin_100 rnd) ! i = 100 + (rnd i - 0.5) * 2"
      using i by (simp add: nth_initialize_normal coin_100_def)
    with e have "rnd i = 1.25" by simp
    moreover from r have "rnd i < 1" by simp
    ultimately show False by simp
  qed
qed

text \<open>
  Claim C3, amended. For a normal-class instrument with a non-negative base price and draws
  in \<open>[0, 1)\<close>, \<open>initialize\<close> returns \<open>N\<close> samples, the \<open>i\<close>-th one computed from the \<open>i\<close>-th
  draw alone as \<open>basePrice + (r - 0.5) * (0.02 * basePrice)\<close>. Every seeded sample \<open>s\<close>
  satisfies \<open>|s - basePrice| \<le> 0.01 * basePrice\<close> (one percent on either side, a band of
  total width 2%), and for a positive base price every value \<open>v\<close> with
  \<open>0.99 * basePrice \<le> v < 1.01 * basePrice\<close> is attainable.
\<close>

theorem initialize_normal_seed_band:
  assumes "coin_id coin \<noteq> ''GAFR''" and "0 \<le> basePrice coin"
    and "\<forall>i. 0 \<le> rnd i \<and> rnd i < 1"
  shows "length (data (initialize coin rnd)) = maxPoints
       \<and> (\<forall>i<maxPoints. data (initialize coin rnd) ! i
              = basePrice coin + (rnd i - 0.5) * (basePrice coin * 0.02))
       \<and> (\<forall>s\<in>set (data (initialize coin rnd)).
              \<bar>s - basePrice coin\<bar> \<le> 0.01 * basePrice coin)
       \<and> (\<forall>i v. 0 < basePrice coin \<and> i < maxPoints
              \<and> 0.99 * basePrice coin \<le> v \<and> v < 1.01 * basePrice coin \<longrightarrow>
              (\<exists>r. 0 \<le> r \<and> r < 1
                 \<and> (\<forall>rnd'. rnd' i = r \<longrightarrow> data (initialize coin rnd') ! i = v)))"
proof (intro conjI)
  show len: "length (data (initialize coin rnd)) = maxPoints"
    by (rule length_initialize)
  show nth: "\<forall>i<maxPoints. data (initialize coin rnd) ! i
              = basePrice coin + (rnd i - 0.5) * (basePrice coin * 0.02)"
    using assms(1) by (simp add: nth_initialize_normal)
  show "\<forall>s\<in>set (data (initialize coin rnd)).
              \<bar>s - basePrice coin\<bar> \<le> 0.01 * basePrice coin"
  proof
    fix s assume "s \<in> set (data (initialize coin rnd))"
    then obtain i where i: "i < maxPoints" and s: "s = data (initialize coin rnd) ! i"
      using len by (auto simp: in_set_conv_nth)
    let ?b = "basePrice coin"
    have eq: "s = ?b + (rnd i - 0.5) * (?b * 0.02)"
      using s nth i by simp
    have r: "0 \<le> rnd i" "rnd i < 1" using assms(3) by simp_all
    have "0.99 * ?b \<le> s \<and> s \<le> 1.01 * ?b"
      unfolding eq using assms(2) r by (rule seed_sample_bounds)
    then show "\<bar>s - ?b\<bar> \<le> 0.01 * ?b"
      unfolding abs_le_iff by (simp add: field_simps)
  qed
  show "\<forall>i v. 0 < basePrice coin \<and> i < maxPoints
              \<and> 0.99 * basePrice coin \<le> v \<and> v < 1.01 * basePrice coin \<longrightarrow>
              (\<exists>r. 0 \<le> r \<and> r < 1
                 \<and> (\<forall>rnd'. rnd' i = r \<longrightarrow> data (initialize coin rnd') ! i = v))"
  proof (intro allI impI)
    fix i v
    assume h: "0 < basePrice coin \<and> i < maxPoints
              \<and> 0.99 * basePrice coin \<le> v \<and> v < 1.01 * basePrice coin"
    then obtain r where r: "0 \<le> r" "r < 1"
      and e: "basePrice coin + (r - 0.5) * (basePrice coin * 0.02) = v"
      using seed_sample_attains [of "basePrice coin" v] by blast
    have "\<forall>rnd'. rnd' i = r \<longrightarrow> data (initialize coin rnd') ! i = v"
      using assms(1) h e by (simp add: nth_initialize_normal)
    with r show "\<exists>r. 0 \<le> r \<and> r < 1
                 \<and> (\<forall>rnd'. rnd' i = r \<longrightarrow> data (initialize coin rnd') ! i = v)"
      by blast
  qed
qed

text \<open>At base price 100, the constant draw 3/4 seeds eighty samples equal to 100.5.\<close>

theorem initialize_normal_seed_band_witness:
  "coin_id coin_100 \<noteq> ''GAFR'' \<and> 0 \<le> basePrice coin_100
   \<and> data (initialize coin_100 (\<lambda>i. 3 / 4)) ! 0 = 100.5
   \<and> length (data (initialize coin_100 (\<lambda>i. 3 / 4))) = 80"
proof -
  have a: "coin_id coin_100 \<noteq> ''GAFR''" by (simp add: coin_100_def)
  have b: "0 \<le> basePrice coin_100" by (simp add: coin_100_def)
  have c: "\<forall>i::nat. (0::real) \<le> 3 / 4 \<and> (3 / 4 :: real) < 1" by simp
  have m: "0 < maxPoints" by (simp add: maxPoints_def)
  from initialize_normal_seed_band [OF a b c]
  have "length (data (initialize coin_100 (\<lambda>i. 3 / 4))) = maxPoints"
    and "\<forall>i<maxPoints. data (initialize coin_100 (\<lambda>i. 3 / 4)) ! i
              = basePrice coin_100 + (3 / 4 - 0.5) * (basePrice coin_100 * 0.02)"
    by simp_all
  with m have "length (data (initialize coin_100 (\<lambda>i. 3 / 4))) = 80"
    and "data (initialize coin_100 (\<lambda>i. 3 / 4)) ! 0 = 100.5"
    by (simp_all add: maxPoints_def coin_100_def)
  with a b show ?thesis by simp
qed

section \<open>A whole run stays in the band\<close>

text \<open>
  The end-to-end property of the spec: seeded from draws in \<open>[0, 1)\<close>, the window of a
  normal-class instrument holds only values of \<open>[0.8 * basePrice, 1.2 * basePrice]\<close>
  after any sequence of ticks, whatever their draws.
\<close>

lemma advance_keeps_band:
  assumes "coin_id coin \<noteq> ''GAFR''" and "0 \<le> basePrice coin"
    and "\<forall>x\<in>set (data st). minBound coin \<le> x \<and> x \<le> maxBound coin"
  shows "\<forall>x\<in>set (data (advance coin d st)). minBound coin \<le> x \<and> x \<le> maxBound coin"
proof
  fix x assume "x \<in> set (data (advance coin d st))"
  then have "x \<in> set (drop 1 (data st))
             \<or> x = soft_constrain coin (last_or_base coin (data st) + change coin (fst d))"
    using assms(1) by (auto simp: data_advance_normal)
  then show "minBound coin \<le> x \<and> x \<le> maxBound coin"
  proof
    assume "x \<in> set (drop 1 (data st))"
    then have "x \<in> set (data st)" by (rule in_set_dropD)
    with assms(3) show ?thesis by simp
  next
    assume "x = soft_constrain coin (last_or_base coin (data st) + change coin (fst d))"
    then show ?thesis using soft_constrain_in_band [OF assms(2)] by simp
  qed
qed

lemma run_keeps_band:
  assumes "coin_id coin \<noteq> ''GAFR''" and "0 \<le> basePrice coin"
  shows "\<forall>x\<in>set (data st). minBound coin \<le> x \<and> x \<le> maxBound coin \<Longrightarrow>
         \<forall>x\<in>set (data (run coin ticks st)). minBound coin \<le> x \<and> x \<le> maxBound coin"
proof (induction ticks arbitrary: st)
  case Nil
  then show ?case by (simp only: run.simps)
next
  case (Cons d ticks)
  have step: "\<forall>x\<in>set (data (advance coin d st)). minBound coin \<le> x \<and> x \<le> maxBound coin"
    by (rule advance_keeps_band [OF assms Cons.prems])
  have "run coin (d # ticks) st = run coin ticks (advance coin d st)"
    by (simp only: run.simps)
  then show ?case using Cons.IH [OF step] by (simp only:)
qed

lemma initialize_in_band:
  assumes "coin_id coin \<noteq> ''GAFR''" and "0 \<le> basePrice coin"
    and "\<forall>i. 0 \<le> rnd i \<and> rnd i < 1"
  shows "\<forall>x\<in>set (data (initialize coin rnd)). minBound coin \<le> x \<and> x \<le> maxBound coin"
proof
  fix x assume "x \<in> set (data (initialize coin rnd))"
  then obtain i where i: "i < maxPoints" and x: "x = data (initialize coin rnd) ! i"
    using length_initialize [of coin rnd] by (auto simp: in_set_conv_nth)
  let ?b = "basePrice coin"
  have eq: "x = ?b + (rnd i - 0.5) * (?b * 0.02)"
    using x i assms(1) by (simp add: nth_initialize_normal)
  have r: "0 \<le> rnd i" "rnd i < 1" using assms(3) by simp_all
  have "0.99 * ?b \<le> x \<and> x \<le> 1.01 * ?b"
    unfolding eq using assms(2) r by (rule seed_sample_bounds)
  then show "minBound coin \<le> x \<and> x \<le> maxBound coin"
    using assms(2) by (simp add: minBound_def maxBound_def field_simps)
qed

lemma run_from_initialize_in_band:
  assumes "coin_id coin \<noteq> ''GAFR''" and "0 \<le> basePrice coin"
    and "\<forall>i. 0 \<le> rnd i \<and> rnd i < 1"
  shows "\<forall>x\<in>set (data (run coin ticks (initialize coin rnd))).
           0.8 * basePrice coin \<le> x \<and> x \<le> 1.2 * basePrice coin"
proof -
  have "\<forall>x\<in>set (data (initialize coin rnd)). minBound coin \<le> x \<and> x \<le> maxBound coin"
    using assms by (rule initialize_in_band)
  then have "\<forall>x\<in>set (data (run coin ticks (initialize coin rnd))).
               minBound coin \<le> x \<and> x \<le> maxBound coin"
    by (rule run_keeps_band [OF assms(1,2)])
  then show ?thesis by (simp add: minBound_def maxBound_def mult.commute)
qed

section \<open>The flatline instrument\<close>

text \<open>
  Claim C8. For the flatline instrument a tick appends \<open>0\<close> exactly when the flicker draw is
  at most \<open>0.95\<close> (a set of draws of measure 0.95); otherwise it appends \<open>+0.01\<close> when the
  sign draw exceeds \<open>0.5\<close> and \<open>-0.01\<close> when it does not (two sets of measure one half). The
  price readout is set to \<open>0\<close> in every case.
\<close>

theorem flatline_advance:
  assumes "coin_id coin = ''GAFR''"
  shows "data (advance coin (r1, r2) st) =
           drop 1 (data st) @ [if r1 \<le> 0.95 then 0 else if r2 > 0.5 then 0.01 else - 0.01]
       \<and> (last (data (advance coin (r1, r2) st)) = 0 \<longleftrightarrow> r1 \<le> 0.95)
       \<and> (r1 > 0.95 \<longrightarrow>
            last (data (advance coin (r1, r2) st)) = (if r2 > 0.5 then 0.01 else - 0.01))
       \<and> price (advance coin (r1, r2) st) = 0"
  using assms by (simp add: advance_def Let_def)

text \<open>
  The three outcomes on a window \<open>[0, 0]\<close> whose readout was not yet \<open>0\<close>: no flicker at the
  boundary draw 0.95, an upward and a downward flicker.
\<close>

theorem flatline_advance_witness:
  "coin_id coin_gafr = ''GAFR''
   \<and> advance coin_gafr (0.95, 0.9) \<lparr>data = [0, 0], price = 7\<rparr> = \<lparr>data = [0, 0], price = 0\<rparr>
   \<and> advance coin_gafr (0.96, 0.9) \<lparr>data = [0, 0], price = 7\<rparr> = \<lparr>data = [0, 0.01], price = 0\<rparr>
   \<and> advance coin_gafr (0.96, 0.5) \<lparr>data = [0, 0], price = 7\<rparr>
       = \<lparr>data = [0, - 0.01], price = 0\<rparr>"
proof -
  have a: "coin_id coin_gafr = ''GAFR''" by (simp add: coin_gafr_def)
  let ?st = "\<lparr>data = [0, 0], price = 7\<rparr>"
  from flatline_advance [OF a, of "0.95" "0.9" "?st"]
  have "advance coin_gafr (0.95, 0.9) ?st = \<lparr>data = [0, 0], price = 0\<rparr>" by simp
  moreover from flatline_advance [OF a, of "0.96" "0.9" "?st"]
  have "advance coin_gafr (0.96, 0.9) ?st = \<lparr>data = [0, 0.01], price = 0\<rparr>" by simp
  moreover from flatline_advance [OF a, of "0.96" "0.5" "?st"]
  have "advance coin_gafr (0.96, 0.5) ?st = \<lparr>data = [0, - 0.01], price = 0\<rparr>" by simp
  ultimately show ?thesis using a by simp
qed

section \<open>Restart from the base price\<close>

text \<open>
  Claim C10. In the random walk the fallback to \<open>basePrice\<close> is taken whenever the most
  recent sample is \<open>0\<close>, not only for an empty window: for a non-empty window whose last
  sample is \<open>0\<close> the new sample is computed from \<open>basePrice + change\<close>, not from \<open>0 + change\<close>.
\<close>

theorem zero_last_sample_restarts_from_basePrice:
  assumes "coin_id coin \<noteq> ''GAFR''" and "data st \<noteq> []" and "last (data st) = 0"
  shows "last (data (advance coin (r, r2) st))
           = soft_constrain coin (basePrice coin + change coin r)"
  using assms by (simp add: data_advance_normal last_or_base_def)

text \<open>
  At base price 100 and the draw one half the change is \<open>0\<close>: after a window ending in \<open>0\<close>
  the new sample is 100, whereas a walk continued from \<open>0\<close> would have been reset to 80.5.
\<close>

theorem zero_last_sample_restarts_from_basePrice_witness:
  "coin_id coin_100 \<noteq> ''GAFR'' \<and> data \<lparr>data = [90, 0], price = 0\<rparr> \<noteq> []
   \<and> last (data \<lparr>data = [90, 0], price = 0\<rparr>) = 0
   \<and> last (data (advance coin_100 (1 / 2, 0) \<lparr>data = [90, 0], price = 0\<rparr>)) = 100
   \<and> soft_constrain coin_100 (0 + change coin_100 (1 / 2)) = 80.5"
proof -
  let ?st = "\<lparr>data = [90, 0], price = 0\<rparr>"
  have a: "coin_id coin_100 \<noteq> ''GAFR''" by (simp add: coin_100_def)
  have b: "data ?st \<noteq> []" by simp
  have c: "last (data ?st) = 0" by simp
  have d: "soft_constrain coin_100 (basePrice coin_100 + change coin_100 (1 / 2)) = 100"
    by (simp add: coin_100_def change_def volatility_def soft_constrain_def minBound_def
        maxBound_def Let_def)
  have e: "soft_constrain coin_100 (0 + change coin_100 (1 / 2)) = 80.5"
    by (simp add: coin_100_def change_def volatility_def soft_constrain_def minBound_def
        maxBound_def Let_def)
  from zero_last_sample_restarts_from_basePrice [OF a b c, of "1 / 2" 0] d
  have "last (data (advance coin_100 (1 / 2, 0) ?st)) = 100" by simp
  with a b c e show ?thesis by simp
qed

section \<open>Rounding to the nearest double\<close>

lemma rne_lower: "\<lfloor>q\<rfloor> \<le> rne q"
  by (simp add: rne_def Let_def)

lemma rne_upper: "rne q \<le> \<lfloor>q\<rfloor> + 1"
  by (simp add: rne_def Let_def)

lemma rne_of_int: "rne (of_int n) = n"
  by (simp add: rne_def Let_def)

lemma rne_mono:
  assumes "p \<le> q"
  shows "rne p \<le> rne q"
proof (cases "\<lfloor>p\<rfloor> < \<lfloor>q\<rfloor>")
  case True
  have "rne p \<le> \<lfloor>p\<rfloor> + 1" by (rule rne_upper)
  also have "\<dots> \<le> \<lfloor>q\<rfloor>" using True by simp
  also have "\<dots> \<le> rne q" by (rule rne_lower)
  finally show ?thesis .
next
  case False
  moreover have "\<lfloor>p\<rfloor> \<le> \<lfloor>q\<rfloor>" using assms by (rule floor_mono)
  ultimately have eq: "\<lfloor>p\<rfloor> = \<lfloor>q\<rfloor>" by simp
  then have "p - of_int \<lfloor>p\<rfloor> \<le> q - of_int \<lfloor>q\<rfloor>" using assms by simp
  then show ?thesis using eq by (auto simp: rne_def Let_def)
qed

lemma rne_nonneg: "0 \<le> q \<Longrightarrow> 0 \<le> rne q"
  using rne_mono [of 0 q] rne_of_int [of 0] by simp

lemma two_powr_int: "(2::real) powr of_int k = 2 powi k"
  by (simp add: powr_real_of_int power_int_def power_one_over inverse_eq_divide)

lemma floor_log2_bounds:
  assumes "0 < x"
  shows "2 powi \<lfloor>log 2 x\<rfloor> \<le> x \<and> x < 2 powi (\<lfloor>log 2 x\<rfloor> + 1)"
proof -
  have "2 powr of_int \<lfloor>log 2 x\<rfloor> \<le> x \<and> x < 2 powr of_int (\<lfloor>log 2 x\<rfloor> + 1)"
    using assms floor_log_eq_powr_iff [of x 2 "\<lfloor>log 2 x\<rfloor>"] by simp
  then show ?thesis by (simp only: two_powr_int)
qed

lemma floor_log2_eq:
  assumes "0 < x" and "2 powi e \<le> x" and "x < 2 powi (e + 1)"
  shows "\<lfloor>log 2 x\<rfloor> = e"
proof -
  have "2 powr of_int e \<le> x \<and> x < 2 powr of_int (e + 1)"
    using assms(2,3) by (simp only: two_powr_int)
  then show ?thesis
    using assms(1) floor_log_eq_powr_iff [of x 2 e] by simp
qed

lemma floor_log2_mono:
  assumes "0 < x" and "x \<le> y"
  shows "\<lfloor>log 2 x\<rfloor> \<le> \<lfloor>log 2 y\<rfloor>"
proof -
  have "log 2 x \<le> log 2 y" using assms by simp
  then show ?thesis by (rule floor_mono)
qed

lemma ulp_pos: "0 < ulp x"
  by (simp add: ulp_def)

lemma nearest_zero: "nearest 0 = 0"
  by (simp add: nearest_def)

lemma nearest_nonneg:
  assumes "0 \<le> x"
  shows "0 \<le> nearest x"
proof (cases "x = 0")
  case True
  then show ?thesis by (simp add: nearest_zero)
next
  case False
  have "0 \<le> x / ulp x" using assms ulp_pos [of x] by simp
  then have "0 \<le> rne (x / ulp x)" by (rule rne_nonneg)
  then show ?thesis using False ulp_pos [of x] by (simp add: nearest_def)
qed

text \<open>The exponent of the binade of a positive number, clipped at the subnormal range.\<close>

lemma below_next_binade:
  assumes "0 < x"
  shows "x < 2 powi (max \<lfloor>log 2 x\<rfloor> (- 1022) + 1)"
proof -
  have "x < 2 powi (\<lfloor>log 2 x\<rfloor> + 1)"
    using floor_log2_bounds [OF assms] by simp
  also have "\<dots> \<le> 2 powi (max \<lfloor>log 2 x\<rfloor> (- 1022) + 1)"
    by (rule power_int_increasing) simp_all
  finally show ?thesis .
qed

lemma split_binade: "(2::real) powi (k + 1) = 2 ^ 53 * 2 powi (k - 52)"
proof -
  have "(2::real) powi (53 + (k - 52)) = 2 powi 53 * 2 powi (k - 52)"
    by (rule power_int_add) simp
  moreover have "53 + (k - 52) = k + 1" by simp
  ultimately have "(2::real) powi (k + 1) = 2 powi 53 * 2 powi (k - 52)"
    by (simp only:)
  then show ?thesis by simp
qed

lemma split_binade_low: "(2::real) powi k = 2 ^ 52 * 2 powi (k - 52)"
proof -
  have "(2::real) powi (52 + (k - 52)) = 2 powi 52 * 2 powi (k - 52)"
    by (rule power_int_add) simp
  moreover have "52 + (k - 52) = k" by simp
  ultimately have "(2::real) powi k = 2 powi 52 * 2 powi (k - 52)"
    by (simp only:)
  then show ?thesis by simp
qed

lemma ulp_of_pos: "0 < x \<Longrightarrow> ulp x = 2 powi (max \<lfloor>log 2 x\<rfloor> (- 1022) - 52)"
  by (simp add: ulp_def)

lemma nearest_le_next_binade:
  assumes "0 < x"
  shows "nearest x \<le> 2 powi (max \<lfloor>log 2 x\<rfloor> (- 1022) + 1)"
proof -
  let ?k = "max \<lfloor>log 2 x\<rfloor> (- 1022)"
  have u: "ulp x = 2 powi (?k - 52)" using assms by (rule ulp_of_pos)
  have up: "0 < ulp x" by (rule ulp_pos)
  have "x < 2 ^ 53 * ulp x"
    using below_next_binade [OF assms] by (simp only: split_binade u)
  then have "x / ulp x \<le> of_int (2 ^ 53)"
    using up by (simp add: pos_divide_le_eq)
  then have "rne (x / ulp x) \<le> rne (of_int (2 ^ 53))" by (rule rne_mono)
  then have "rne (x / ulp x) \<le> 2 ^ 53" by (simp only: rne_of_int)
  then have "of_int (rne (x / ulp x)) \<le> (2 ^ 53 :: real)"
    by (metis of_int_le_iff of_int_numeral of_int_power)
  then have "of_int (rne (x / ulp x)) * ulp x \<le> 2 ^ 53 * ulp x"
    using up by (simp only: mult_le_cancel_right_pos)
  then show ?thesis
    using assms by (simp only: nearest_def split_binade u) simp
qed

lemma nearest_ge_binade:
  assumes "0 < x" and "- 1022 \<le> \<lfloor>log 2 x\<rfloor>"
  shows "2 powi \<lfloor>log 2 x\<rfloor> \<le> nearest x"
proof -
  let ?k = "\<lfloor>log 2 x\<rfloor>"
  have "max ?k (- 1022) = ?k" using assms(2) by (rule max_absorb1)
  then have u: "ulp x = 2 powi (?k - 52)" using ulp_of_pos [OF assms(1)] by (simp only:)
  have up: "0 < ulp x" by (rule ulp_pos)
  have "2 ^ 52 * ulp x \<le> x"
    using floor_log2_bounds [OF assms(1)] by (simp only: split_binade_low [symmetric] u)
  then have "of_int (2 ^ 52) \<le> x / ulp x"
    using up by (simp add: pos_le_divide_eq)
  then have "rne (of_int (2 ^ 52)) \<le> rne (x / ulp x)" by (rule rne_mono)
  then have "2 ^ 52 \<le> rne (x / ulp x)" by (simp only: rne_of_int)
  then have "(2 ^ 52 :: real) \<le> of_int (rne (x / ulp x))"
    by (metis of_int_le_iff of_int_numeral of_int_power)
  then have "2 ^ 52 * ulp x \<le> of_int (rne (x / ulp x)) * ulp x"
    using up by (simp only: mult_le_cancel_right_pos)
  then show ?thesis
    using assms(1) by (simp only: nearest_def split_binade_low [of ?k] u) simp
qed

lemma nearest_mono_pos:
  assumes "0 < x" and "x \<le> y"
  shows "nearest x \<le> nearest y"
proof -
  let ?kx = "max \<lfloor>log 2 x\<rfloor> (- 1022)"
  let ?ky = "max \<lfloor>log 2 y\<rfloor> (- 1022)"
  have y: "0 < y" using assms by simp
  have e: "\<lfloor>log 2 x\<rfloor> \<le> \<lfloor>log 2 y\<rfloor>" using assms by (rule floor_log2_mono)
  then have k: "?kx \<le> ?ky" by simp
  show ?thesis
  proof (cases "?kx = ?ky")
    case True
    have ux: "ulp x = 2 powi (?kx - 52)" using assms(1) by (rule ulp_of_pos)
    have uy: "ulp y = 2 powi (?ky - 52)" using y by (rule ulp_of_pos)
    have u: "ulp y = ulp x" using True ux uy by simp
    have "x / ulp x \<le> y / ulp x"
      using assms(2) ulp_pos [of x] by (simp add: divide_right_mono)
    then have "rne (x / ulp x) \<le> rne (y / ulp x)" by (rule rne_mono)
    then have "of_int (rne (x / ulp x)) * ulp x \<le> of_int (rne (y / ulp x)) * ulp x"
      using ulp_pos [of x] by simp
    then show ?thesis using assms(1) y u by (simp add: nearest_def)
  next
    case False
    from k False have lt: "?kx < ?ky" by (rule le_neq_trans)
    then have ky: "?ky = \<lfloor>log 2 y\<rfloor>" and big: "- 1022 \<le> \<lfloor>log 2 y\<rfloor>" by arith+
    have "nearest x \<le> 2 powi (?kx + 1)" using assms(1) by (rule nearest_le_next_binade)
    also have "\<dots> \<le> 2 powi \<lfloor>log 2 y\<rfloor>"
    proof (rule power_int_increasing)
      show "?kx + 1 \<le> \<lfloor>log 2 y\<rfloor>" using lt ky by arith
      show "(1::real) \<le> 2" by simp
    qed
    also have "\<dots> \<le> nearest y" using y big by (rule nearest_ge_binade)
    finally show ?thesis .
  qed
qed

lemma nearest_mono_nonneg:
  assumes "0 \<le> x" and "x \<le> y"
  shows "nearest x \<le> nearest y"
proof (cases "x = 0")
  case True
  then show ?thesis using assms nearest_nonneg [of y] by (simp add: nearest_zero)
next
  case False
  with assms(1) have "0 < x" by simp
  then show ?thesis using assms(2) by (rule nearest_mono_pos)
qed

lemma ulp_eval:
  assumes "2 powi e \<le> \<bar>x\<bar>" and "\<bar>x\<bar> < 2 powi (e + 1)"
  shows "ulp x = 2 powi (max e (- 1022) - 52)"
proof -
  have "(0::real) < 2 powi e" by simp
  then have pos: "0 < \<bar>x\<bar>" using assms(1) by (rule less_le_trans)
  then have "\<lfloor>log 2 \<bar>x\<bar>\<rfloor> = e" using assms by (rule floor_log2_eq)
  then show ?thesis by (simp only: ulp_def)
qed

text \<open>A multiple of the unit in the last place of its own binade is left unchanged.\<close>

lemma nearest_representable:
  assumes "x = of_int n * 2 powi (max e (- 1022) - 52)"
    and "2 powi e \<le> \<bar>x\<bar>" and "\<bar>x\<bar> < 2 powi (e + 1)"
  shows "nearest x = x"
proof -
  have u: "ulp x = 2 powi (max e (- 1022) - 52)" using assms(2,3) by (rule ulp_eval)
  have "(0::real) < 2 powi e" by simp
  then have "0 < \<bar>x\<bar>" using assms(2) by (rule less_le_trans)
  then have nz: "x \<noteq> 0" by simp
  have "x / ulp x = of_int n"
    unfolding u by (subst assms(1)) simp
  then have "rne (x / ulp x) = n" by (simp only: rne_of_int)
  then have "nearest x = of_int n * ulp x" using nz by (simp add: nearest_def)
  then show ?thesis using assms(1) u by simp
qed

lemma nearest_one: "nearest 1 = 1"
proof (rule nearest_representable [where n = "2 ^ 52" and e = 0])
  show "(1::real) = of_int (2 ^ 52) * 2 powi (max 0 (- 1022) - 52)"
    by (simp add: power_int_minus)
  show "2 powi 0 \<le> \<bar>1::real\<bar>" by simp
  show "\<bar>1::real\<bar> < 2 powi (0 + 1)" by simp
qed

lemma nearest_smallest: "nearest (2 powi (- 1074)) = 2 powi (- 1074)"
proof (rule nearest_representable [where n = 1 and e = "- 1074"])
  show "(2::real) powi (- 1074) = of_int 1 * 2 powi (max (- 1074) (- 1022) - 52)"
    by simp
  show "2 powi (- 1074) \<le> \<bar>(2::real) powi (- 1074)\<bar>" by simp
  show "\<bar>(2::real) powi (- 1074)\<bar> < 2 powi (- 1074 + 1)"
    by (simp add: power_int_strict_increasing)
qed

lemma half_smallest: "(2::real) powi (- 1075) = (1 / 2) * 2 powi (- 1074)"
proof -
  have "(2::real) powi (- 1 + (- 1074)) = 2 powi (- 1) * 2 powi (- 1074)"
    by (rule power_int_add) simp
  moreover have "- 1 + (- 1074) = (- 1075 :: int)" by simp
  moreover have "(2::real) powi (- 1) = 1 / 2" by (simp add: power_int_minus)
  ultimately show ?thesis by (simp only:)
qed

lemma rne_small:
  assumes "0 \<le> t" and "t < 1 / 2"
  shows "rne t = 0"
proof -
  have "t < 1" using assms(2) by simp
  with assms(1) have f: "\<lfloor>t\<rfloor> = 0" by (simp add: floor_eq_iff)
  show ?thesis using assms(2) by (simp add: rne_def Let_def f)
qed

lemma nearest_tiny:
  assumes "0 \<le> x" and "x < 2 powi (- 1075)"
  shows "nearest x = 0"
proof (cases "x = 0")
  case True
  then show ?thesis by (simp add: nearest_zero)
next
  case False
  with assms(1) have pos: "0 < x" by simp
  have "\<lfloor>log 2 x\<rfloor> < - 1075"
  proof (rule ccontr)
    assume "\<not> \<lfloor>log 2 x\<rfloor> < - 1075"
    then have "- 1075 \<le> \<lfloor>log 2 x\<rfloor>" by simp
    then have "(2::real) powi (- 1075) \<le> 2 powi \<lfloor>log 2 x\<rfloor>"
      by (rule power_int_increasing) simp
    also have "\<dots> \<le> x" using floor_log2_bounds [OF pos] by (rule conjunct1)
    finally have "\<not> x < 2 powi (- 1075)" by (rule leD)
    then show False using assms(2) by (rule notE)
  qed
  then have "max \<lfloor>log 2 x\<rfloor> (- 1022) - 52 = - 1074" by simp
  then have u: "ulp x = 2 powi (- 1074)"
    using ulp_of_pos [OF pos] by (simp only:)
  have h: "x < (1 / 2) * ulp x"
    using assms(2) by (simp only: u half_smallest)
  have q: "x / ulp x < 1 / 2"
    unfolding pos_divide_less_eq [OF ulp_pos] by (rule h)
  have q0: "0 \<le> x / ulp x" using pos ulp_pos [of x] by (simp only: zero_le_divide_iff) simp
  from q0 q have "rne (x / ulp x) = 0" by (rule rne_small)
  then show ?thesis using False by (simp add: nearest_def)
qed

lemma double_is_multiple:
  assumes "is_double v"
  shows "\<exists>n::int. v = of_int n * 2 powi (- 1074)"
proof (cases "v = 0")
  case True
  then have "v = of_int 0 * 2 powi (- 1074)" by (simp only: of_int_0 mult_zero_left)
  then show ?thesis by (rule exI)
next
  case False
  define u :: real where "u = 2 powi (- 1074)"
  let ?k = "max \<lfloor>log 2 \<bar>v\<bar>\<rfloor> (- 1022)"
  have k: "0 \<le> ?k + 1022" by simp
  have "nearest v = v" using assms by (simp only: is_double_def)
  then have v: "v = of_int (rne (v / ulp v)) * 2 powi (?k - 52)"
    using False by (simp only: nearest_def ulp_def if_False)
  have "(2::real) powi ((?k + 1022) + (- 1074)) = 2 powi (?k + 1022) * 2 powi (- 1074)"
    by (rule power_int_add) simp
  moreover have "(?k + 1022) + (- 1074) = ?k - 52" by simp
  moreover have "(2::real) powi (?k + 1022) = of_int (2 ^ nat (?k + 1022))"
    using k by (simp only: power_int_nonneg_exp of_int_power of_int_numeral)
  ultimately have "(2::real) powi (?k - 52) = of_int (2 ^ nat (?k + 1022)) * u"
    by (simp only: u_def)
  with v have "v = of_int (rne (v / ulp v)) * (of_int (2 ^ nat (?k + 1022)) * u)"
    by (simp only:)
  then have "v = of_int (rne (v / ulp v) * 2 ^ nat (?k + 1022)) * u"
    by (simp only: of_int_mult mult.assoc)
  then show ?thesis unfolding u_def by (rule exI)
qed

lemma nearest_difference_pos:
  assumes "is_double a" and "is_double b" and "a < b"
  shows "0 < nearest (b - a)"
proof -
  define u :: real where "u = 2 powi (- 1074)"
  have u: "0 < u" by (simp add: u_def)
  obtain m n :: int where a: "a = of_int m * u" and b: "b = of_int n * u"
    using assms(1,2) double_is_multiple unfolding u_def by blast
  have "of_int m * u < of_int n * u" using assms(3) a b by (simp only:)
  then have "(of_int m :: real) < of_int n" using u by (simp only: mult_less_cancel_right_pos)
  then have "m < n" by (simp only: of_int_less_iff)
  then have "1 \<le> n - m" by simp
  then have "(1::real) \<le> of_int (n - m)" by (simp only: of_int_1_le_iff)
  then have "1 * u \<le> of_int (n - m) * u"
    using u by (simp only: mult_le_cancel_right_pos)
  also have "\<dots> = b - a" by (simp only: a b of_int_diff left_diff_distrib)
  finally have "u \<le> b - a" by (simp only: mult_1)
  moreover have "0 \<le> u" using u by (rule less_imp_le)
  ultimately have "nearest u \<le> nearest (b - a)" by (rule nearest_mono_nonneg [rotated])
  then have "u \<le> nearest (b - a)" by (simp only: u_def nearest_smallest)
  with u show ?thesis by (rule less_le_trans)
qed

section \<open>Normalisation in double arithmetic\<close>

lemma one_less_threshold: "1 < overflow_threshold"
  by (simp add: overflow_threshold_def)

lemma fl_finite: "0 \<le> x \<Longrightarrow> x < overflow_threshold \<Longrightarrow> fl x = Fin (nearest x)"
  by (simp add: fl_def)

lemma fl_not_PInf:
  assumes "0 \<le> x" and "fl x \<noteq> PInf"
  shows "x < overflow_threshold"
proof (rule ccontr)
  assume "\<not> x < overflow_threshold"
  then have big: "overflow_threshold \<le> x" by simp
  with one_less_threshold have "0 < x" by simp
  with big assms(1) have "fl x = PInf" by (simp add: fl_def)
  with assms(2) show False by simp
qed

lemma fold_min_Fin: "fold js_min2 (map Fin vs) (Fin a) = Fin (fold min vs a)"
  by (induction vs arbitrary: a) simp_all

lemma fold_max_Fin: "fold js_max2 (map Fin vs) (Fin a) = Fin (fold max vs a)"
  by (induction vs arbitrary: a) simp_all

lemma js_Math_min_Fin:
  assumes "vs \<noteq> []"
  shows "js_Math_min (map Fin vs) = Fin (Min (set vs))"
proof -
  obtain v ws where vs: "vs = v # ws" using assms by (cases vs) simp_all
  have "js_Math_min (map Fin (v # ws)) = Fin (fold min ws v)"
    by (simp add: js_Math_min_def fold_min_Fin)
  also have "fold min ws v = Min (set (v # ws))" by (simp only: Min.set_eq_fold)
  finally show ?thesis by (simp only: vs)
qed

lemma js_Math_max_Fin:
  assumes "vs \<noteq> []"
  shows "js_Math_max (map Fin vs) = Fin (Max (set vs))"
proof -
  obtain v ws where vs: "vs = v # ws" using assms by (cases vs) simp_all
  have "js_Math_max (map Fin (v # ws)) = Fin (fold max ws v)"
    by (simp add: js_Math_max_def fold_max_Fin)
  also have "fold max ws v = Max (set (v # ws))" by (simp only: Max.set_eq_fold)
  finally show ?thesis by (simp only: vs)
qed

text \<open>The non-flat case: one point of a window of doubles whose spread does not overflow.\<close>

lemma effectiveY_unit:
  assumes "is_double mn" and "is_double mx" and "mn < mx"
    and "js_sub (Fin mx) (Fin mn) \<noteq> PInf"
    and "mn \<le> d" and "d \<le> mx"
  shows "\<exists>t. effectiveY coin (Fin mn) (Fin mx) (Fin d) = Fin t \<and> 0 \<le> t \<and> t \<le> 1"
proof -
  let ?r = "nearest (mx - mn)"
  let ?a = "nearest (d - mn)"
  have spread: "mx - mn < overflow_threshold"
    using assms(3,4) by (intro fl_not_PInf) simp_all
  have diff: "fl (mx - mn) = Fin ?r"
    using assms(3) spread by (simp add: fl_finite)
  have r: "0 < ?r" using assms(1,2,3) by (rule nearest_difference_pos)
  then have range: "chart_range coin (Fin mn) (Fin mx) = Fin ?r"
    by (simp add: chart_range_def Let_def diff)
  have "d - mn < overflow_threshold" using assms(6) spread by simp
  then have num: "fl (d - mn) = Fin ?a"
    using assms(5) by (simp add: fl_finite)
  have a0: "0 \<le> ?a" using assms(5) by (intro nearest_nonneg) simp
  have ar: "?a \<le> ?r" using assms(5,6) by (intro nearest_mono_nonneg) simp_all
  have q0: "0 \<le> ?a / ?r" using a0 r by simp
  have q1: "?a / ?r \<le> 1" using ar r by simp
  then have "?a / ?r < overflow_threshold" using one_less_threshold by simp
  then have quot: "js_div (Fin ?a) (Fin ?r) = Fin (nearest (?a / ?r))"
    using q0 r by (simp add: fl_finite)
  have t0: "0 \<le> nearest (?a / ?r)" using q0 by (rule nearest_nonneg)
  have "nearest (?a / ?r) \<le> nearest 1" using q0 q1 by (rule nearest_mono_nonneg)
  then have t1: "nearest (?a / ?r) \<le> 1" by (simp only: nearest_one)
  have ne: "\<not> js_strict_eq (Fin mx) (Fin mn)" using assms(3) by simp
  have "normalizedY coin (Fin mn) (Fin mx) (Fin d) = js_div (Fin ?a) (Fin ?r)"
    by (simp only: normalizedY_def js_sub.simps(1) num range)
  then have "effectiveY coin (Fin mn) (Fin mx) (Fin d) = Fin (nearest (?a / ?r))"
    using ne by (simp only: effectiveY_def if_False quot)
  with t0 t1 show ?thesis by blast
qed

lemma normalized_points_Fin:
  assumes "vs \<noteq> []"
  shows "normalized_points coin (map Fin vs)
           = map (\<lambda>v. effectiveY coin (Fin (Min (set vs))) (Fin (Max (set vs))) (Fin v)) vs"
  using assms
  by (simp add: normalized_points_def Let_def js_Math_min_Fin js_Math_max_Fin comp_def)

lemma normalized_points_Nil: "normalized_points coin [] = []"
  by (simp add: normalized_points_def)

lemma chart_range_flat:
  assumes "js_sub mx mn = Fin 0"
  shows "chart_range coin mn mx =
           (if basePrice coin > 0 then js_mul (Fin (basePrice coin)) (fl 0.0001) else Fin 1)"
  using assms by (simp add: chart_range_def Let_def)

text \<open>Some doubles: \<open>2 ^ 1023\<close> (about \<open>8.99e307\<close>) and its negative, and a few small ones.\<close>

lemma is_double_power_1023: "is_double (2 ^ 1023) \<and> is_double (- (2 ^ 1023))"
proof -
  have e: "(2::real) ^ 1023 = 2 ^ 52 * 2 powi (1023 - 52)"
    using split_binade_low [of 1023] by simp
  have n: "nearest (2 ^ 1023) = 2 ^ 1023"
  proof (rule nearest_representable [where n = "2 ^ 52" and e = 1023])
    show "(2::real) ^ 1023 = of_int (2 ^ 52) * 2 powi (max 1023 (- 1022) - 52)"
      using e by simp
    show "2 powi 1023 \<le> \<bar>(2::real) ^ 1023\<bar>" by simp
    show "\<bar>(2::real) ^ 1023\<bar> < 2 powi (1023 + 1)" by simp
  qed
  have m: "nearest (- (2 ^ 1023)) = - (2 ^ 1023)"
  proof (rule nearest_representable [where n = "- (2 ^ 52)" and e = 1023])
    show "- ((2::real) ^ 1023) = of_int (- (2 ^ 52)) * 2 powi (max 1023 (- 1022) - 52)"
      using e by simp
    show "2 powi 1023 \<le> \<bar>- ((2::real) ^ 1023)\<bar>" by simp
    show "\<bar>- ((2::real) ^ 1023)\<bar> < 2 powi (1023 + 1)" by simp
  qed
  have t: "(2::real) ^ 1023 < overflow_threshold" by (simp add: overflow_threshold_def)
  show ?thesis using n m t by (simp add: is_double_def)
qed

lemma is_double_small_integers:
  "is_double 1" "is_double 2" "is_double 3" "is_double 5"
proof -
  have t: "(5::real) < overflow_threshold" by (simp add: overflow_threshold_def)
  have "nearest 2 = 2"
    by (rule nearest_representable [where n = "2 ^ 52" and e = 1])
      (simp_all add: power_int_minus)
  moreover have "nearest 3 = 3"
    by (rule nearest_representable [where n = "3 * 2 ^ 51" and e = 1])
      (simp_all add: power_int_minus)
  moreover have "nearest 5 = 5"
    by (rule nearest_representable [where n = "5 * 2 ^ 50" and e = 2])
      (simp_all add: power_int_minus)
  ultimately show "is_double 1" "is_double 2" "is_double 3" "is_double 5"
    using t nearest_one by (simp_all add: is_double_def)
qed

lemma nearest_half: "nearest (1 / 2) = 1 / 2"
  by (rule nearest_representable [where n = "2 ^ 52" and e = "- 1"])
    (simp_all add: power_int_minus)

lemma fl_small_values:
  "fl 0 = Fin 0" "fl 1 = Fin 1" "fl 2 = Fin 2" "fl (1 / 2) = Fin (1 / 2)"
proof -
  have t: "(2::real) < overflow_threshold" by (simp add: overflow_threshold_def)
  have two: "nearest 2 = 2" using is_double_small_integers(2) by (simp add: is_double_def)
  show "fl 0 = Fin 0" using t by (simp add: fl_def nearest_zero)
  show "fl 1 = Fin 1" using t by (simp add: fl_def nearest_one)
  show "fl 2 = Fin 2" using t by (simp add: fl_def two)
  show "fl (1 / 2) = Fin (1 / 2)" using t by (simp add: fl_def nearest_half)
qed

text \<open>
  Claim C5, as stated, fails in double arithmetic. For the window of the two finite doubles
  \<open>2 ^ 1023\<close> and \<open>- (2 ^ 1023)\<close> the spread \<open>max - min\<close> overflows to \<^verbatim>\<open>Infinity\<close>, which
  is truthy and becomes the divisor; the first point has the numerator \<^verbatim>\<open>Infinity\<close> as well
  and is normalised to \<^verbatim>\<open>NaN\<close>.
\<close>

theorem normalize_overflow_gives_NaN:
  "is_double (2 ^ 1023) \<and> is_double (- (2 ^ 1023))
   \<and> normalized_points coin_100 [Fin (2 ^ 1023), Fin (- (2 ^ 1023))] = [NaN, Fin 0]"
proof -
  have over: "fl (2 ^ 1023 - - (2 ^ 1023)) = PInf"
    by (simp add: fl_def overflow_threshold_def)
  have zero: "fl (- (2 ^ 1023) - - (2 ^ 1023)) = Fin 0"
    using one_less_threshold by (simp add: fl_def nearest_zero)
  have mn: "js_Math_min [Fin (2 ^ 1023), Fin (- (2 ^ 1023))] = Fin (- (2 ^ 1023))"
    by (simp add: js_Math_min_def)
  have mx: "js_Math_max [Fin (2 ^ 1023), Fin (- (2 ^ 1023))] = Fin (2 ^ 1023)"
    by (simp add: js_Math_max_def)
  have range: "chart_range coin_100 (Fin (- (2 ^ 1023))) (Fin (2 ^ 1023)) = PInf"
    by (simp only: chart_range_def Let_def js_sub.simps(1) over truthy.simps if_True)
  have ne: "\<not> js_strict_eq (Fin (2 ^ 1023)) (Fin (- (2 ^ 1023)))" by simp
  have a: "effectiveY coin_100 (Fin (- (2 ^ 1023))) (Fin (2 ^ 1023)) (Fin (2 ^ 1023)) = NaN"
    using ne
    by (simp only: effectiveY_def normalizedY_def if_False js_sub.simps(1) over range
        js_div.simps)
  have b: "effectiveY coin_100 (Fin (- (2 ^ 1023))) (Fin (2 ^ 1023)) (Fin (- (2 ^ 1023)))
             = Fin 0"
    using ne
    by (simp only: effectiveY_def normalizedY_def if_False js_sub.simps(1) zero range
        js_div.simps)
  have "normalized_points coin_100 [Fin (2 ^ 1023), Fin (- (2 ^ 1023))] = [NaN, Fin 0]"
    by (simp only: normalized_points_def Let_def mn mx list.map a b)
  with is_double_power_1023 show ?thesis by blast
qed

text \<open>
  Claim C5, amended. For any base price and any window of finite doubles whose spread
  \<open>max - min\<close> does not overflow to \<^verbatim>\<open>Infinity\<close>, normalisation returns neither \<^verbatim>\<open>NaN\<close> nor
  an infinity: every point's value is a finite number in \<open>[0, 1]\<close>, and in the \<open>max = min\<close>
  case it is exactly \<open>0.5\<close> for every point. When \<open>max - min\<close> is \<open>0\<close> the divisor is
  \<open>basePrice * 0.0001\<close>, as double arithmetic computes it, for a positive base price and
  \<open>1\<close> otherwise.
\<close>

theorem normalize_is_finite:
  assumes "\<forall>v\<in>set vs. is_double v"
    and "js_sub (js_Math_max (map Fin vs)) (js_Math_min (map Fin vs)) \<noteq> PInf"
  shows "length (normalized_points coin (map Fin vs)) = length vs
       \<and> (\<forall>y\<in>set (normalized_points coin (map Fin vs)). \<exists>t. y = Fin t \<and> 0 \<le> t \<and> t \<le> 1)
       \<and> (js_Math_max (map Fin vs) = js_Math_min (map Fin vs) \<longrightarrow>
            (\<forall>y\<in>set (normalized_points coin (map Fin vs)). y = Fin 0.5))
       \<and> (js_sub mx mn = Fin 0 \<longrightarrow>
            chart_range coin mn mx =
              (if basePrice coin > 0 then js_mul (Fin (basePrice coin)) (fl 0.0001)
               else Fin 1))"
proof (intro conjI)
  show "length (normalized_points coin (map Fin vs)) = length vs"
    by (simp add: normalized_points_def Let_def)
  show "js_sub mx mn = Fin 0 \<longrightarrow>
          chart_range coin mn mx =
            (if basePrice coin > 0 then js_mul (Fin (basePrice coin)) (fl 0.0001) else Fin 1)"
    by (simp add: chart_range_flat)
  show "js_Math_max (map Fin vs) = js_Math_min (map Fin vs) \<longrightarrow>
          (\<forall>y\<in>set (normalized_points coin (map Fin vs)). y = Fin 0.5)"
  proof (cases "vs = []")
    case True
    then show ?thesis by (simp add: normalized_points_Nil)
  next
    case False
    then show ?thesis
      by (auto simp: normalized_points_Fin js_Math_min_Fin js_Math_max_Fin effectiveY_def)
  qed
  show "\<forall>y\<in>set (normalized_points coin (map Fin vs)). \<exists>t. y = Fin t \<and> 0 \<le> t \<and> t \<le> 1"
  proof (cases "vs = []")
    case True
    then show ?thesis by (simp add: normalized_points_Nil)
  next
    case False
    let ?mn = "Min (set vs)"
    let ?mx = "Max (set vs)"
    have mn: "?mn \<in> set vs" and mx: "?mx \<in> set vs" using False by simp_all
    then have dmn: "is_double ?mn" and dmx: "is_double ?mx" using assms(1) by blast+
    have spread: "js_sub (Fin ?mx) (Fin ?mn) \<noteq> PInf"
      using assms(2) unfolding js_Math_min_Fin [OF False] js_Math_max_Fin [OF False] .
    show ?thesis
    proof
      fix y assume "y \<in> set (normalized_points coin (map Fin vs))"
      then obtain d where d: "d \<in> set vs"
        and y: "y = effectiveY coin (Fin ?mn) (Fin ?mx) (Fin d)"
        using False by (auto simp: normalized_points_Fin)
      have lo: "?mn \<le> d" and hi: "d \<le> ?mx" using d by simp_all
      show "\<exists>t. y = Fin t \<and> 0 \<le> t \<and> t \<le> 1"
      proof (cases "?mn = ?mx")
        case True
        then have "y = Fin 0.5" by (simp add: y effectiveY_def)
        then show ?thesis by (intro exI [of _ "0.5"]) simp
      next
        case False
        moreover have "?mn \<le> ?mx" using lo hi by (rule order_trans)
        ultimately have "?mn < ?mx" by simp
        with dmn dmx show ?thesis
          unfolding y using spread lo hi by (rule effectiveY_unit)
      qed
    qed
  qed
qed

text \<open>
  The window \<open>[1, 3, 2]\<close> is normalised to \<open>[0, 1, 0.5]\<close> with the divisor \<open>2\<close>, and the
  flat window \<open>[5, 5, 5]\<close> to \<open>0.5\<close> throughout, its divisor being \<open>100 * 0.0001\<close>.
\<close>

theorem normalize_is_finite_witness:
  "is_double 1 \<and> is_double 3 \<and> is_double 2 \<and> is_double 5
   \<and> js_sub (js_Math_max (map Fin [1, 3, 2])) (js_Math_min (map Fin [1, 3, 2])) = Fin 2
   \<and> normalized_points coin_100 (map Fin [1, 3, 2]) = [Fin 0, Fin 1, Fin (1 / 2)]
   \<and> js_Math_max (map Fin [5, 5, 5]) = js_Math_min (map Fin [5, 5, 5])
   \<and> normalized_points coin_100 (map Fin [5, 5, 5]) = [Fin 0.5, Fin 0.5, Fin 0.5]
   \<and> js_sub (Fin 5) (Fin 5) = Fin 0
   \<and> chart_range coin_100 (Fin 5) (Fin 5) = js_mul (Fin 100) (fl 0.0001)"
proof -
  have d: "\<forall>v\<in>set [1, 3, 2 :: real]. is_double v"
    using is_double_small_integers by simp
  have d5: "\<forall>v\<in>set [5, 5, 5 :: real]. is_double v"
    using is_double_small_integers by simp
  have mn: "js_Math_min (map Fin [1, 3, 2]) = Fin 1"
    and mx: "js_Math_max (map Fin [1, 3, 2]) = Fin 3"
    by (simp_all add: js_Math_min_def js_Math_max_def)
  have s: "js_sub (js_Math_max (map Fin [1, 3, 2])) (js_Math_min (map Fin [1, 3, 2])) = Fin 2"
    unfolding mn mx by (simp add: fl_small_values)
  then have s': "js_sub (js_Math_max (map Fin [1, 3, 2])) (js_Math_min (map Fin [1, 3, 2]))
                  \<noteq> PInf"
    by simp
  have flat: "js_Math_max (map Fin [5, 5, 5]) = js_Math_min (map Fin [5, 5, 5])"
    by (simp add: js_Math_min_def js_Math_max_def)
  then have s5: "js_sub (js_Math_max (map Fin [5, 5, 5])) (js_Math_min (map Fin [5, 5, 5]))
                  \<noteq> PInf"
    by (simp add: js_Math_min_def fl_small_values)
  have range: "chart_range coin_100 (Fin 1) (Fin 3) = Fin 2"
    by (simp add: chart_range_def Let_def fl_small_values)
  have p: "normalized_points coin_100 (map Fin [1, 3, 2]) = [Fin 0, Fin 1, Fin (1 / 2)]"
    unfolding normalized_points_def Let_def mn mx
    by (simp add: effectiveY_def normalizedY_def range fl_small_values)
  have z5: "js_sub (Fin 5) (Fin 5) = Fin 0" by (simp add: fl_small_values)
  from normalize_is_finite [OF d5 s5, of coin_100 "Fin 5" "Fin 5"] z5
  have r5: "chart_range coin_100 (Fin 5) (Fin 5) = js_mul (Fin 100) (fl 0.0001)"
    by (simp add: coin_100_def)
  from normalize_is_finite [OF d5 s5, of coin_100 "Fin 5" "Fin 5"] flat
  have "\<forall>y\<in>set (normalized_points coin_100 (map Fin [5, 5, 5])). y = Fin 0.5"
    by blast
  moreover have "length (normalized_points coin_100 (map Fin [5, 5, 5])) = 3"
    using normalize_is_finite [OF d5 s5, of coin_100 NaN NaN] by simp
  ultimately have p5: "normalized_points coin_100 (map Fin [5, 5, 5])
                        = [Fin 0.5, Fin 0.5, Fin 0.5]"
    by (auto simp: length_Suc_conv numeral_3_eq_3)
  from normalize_is_finite [OF d s', of coin_100 NaN NaN]
  have "length (normalized_points coin_100 (map Fin [1, 3, 2])) = 3" by simp
  with is_double_small_integers s p flat p5 z5 r5 show ?thesis by simp
qed

text \<open>
  Underflow: for the smallest positive double as base price the fallback divisor is \<open>0\<close>
  and the quotient of a flat window is \<open>NaN\<close>, but the value drawn is still \<open>0.5\<close>.
\<close>

lemma chart_range_underflow:
  assumes "basePrice coin = 2 powi (- 1074)"
  shows "chart_range coin (Fin v) (Fin v) = Fin 0
       \<and> normalizedY coin (Fin v) (Fin v) (Fin v) = NaN
       \<and> effectiveY coin (Fin v) (Fin v) (Fin v) = Fin 0.5"
proof -
  define u :: real where "u = 2 powi (- 1074)"
  define c :: real where "c = nearest 0.0001"
  have u: "0 < u" by (simp add: u_def)
  have b: "basePrice coin = u" using assms by (simp only: u_def)
  have t: "(1::real) < overflow_threshold" by (rule one_less_threshold)
  have zero: "fl (v - v) = Fin 0" using t by (simp add: fl_def nearest_zero)
  have lit: "fl 0.0001 = Fin c" using t by (simp add: fl_def c_def)
  have c0: "0 \<le> c" unfolding c_def by (rule nearest_nonneg) simp
  have "nearest (2 powi (- 13)) = 2 powi (- 13)"
    by (rule nearest_representable [where n = "2 ^ 52" and e = "- 13"])
      (simp_all add: power_int_minus)
  moreover have "nearest 0.0001 \<le> nearest (2 powi (- 13))"
    by (rule nearest_mono_nonneg) (simp_all add: power_int_minus)
  ultimately have "c \<le> 2 powi (- 13)" by (simp only: c_def)
  also have "(2::real) powi (- 13) < 1 / 2" by (simp add: power_int_minus)
  finally have c1: "c < 1 / 2" .
  have p0: "0 \<le> u * c" using u c0 by simp
  have "u * c < u * (1 / 2)" using u c1 by (simp only: mult_less_cancel_left_pos)
  also have "\<dots> = 2 powi (- 1075)" by (simp only: u_def half_smallest mult.commute)
  finally have small: "u * c < 2 powi (- 1075)" .
  have n0: "nearest (u * c) = 0" using p0 small by (rule nearest_tiny)
  have "c < 1" using c1 by simp
  then have "u * c < u * 1" using u by (simp only: mult_less_cancel_left_pos)
  also have "\<dots> \<le> 1" by (simp add: u_def power_int_minus) 
  finally have "u * c < overflow_threshold" using t by simp
  then have prod: "fl (u * c) = Fin 0" using p0 n0 by (simp add: fl_finite)
  have f1: "js_sub (Fin v) (Fin v) = Fin 0" by (simp only: js_sub.simps zero)
  have f2: "\<not> truthy (Fin 0)" by simp
  have f3: "js_gt (Fin (basePrice coin)) (Fin 0)" using u b by simp
  have f4: "js_mul (Fin (basePrice coin)) (fl 0.0001) = Fin 0"
    by (simp only: b lit js_mul.simps prod)
  have range: "chart_range coin (Fin v) (Fin v) = Fin 0"
    by (simp only: chart_range_def Let_def f1 f2 f3 f4 if_True if_False)
  have norm: "normalizedY coin (Fin v) (Fin v) (Fin v) = NaN"
    by (simp only: normalizedY_def range f1) simp
  have "effectiveY coin (Fin v) (Fin v) (Fin v) = Fin 0.5"
    by (simp add: effectiveY_def)
  with range norm show ?thesis by simp
qed

section \<open>The numeric readouts\<close>

lemma digits_of_small: "n < 10 \<Longrightarrow> digits_of n = [''0123456789'' ! n]"
  by (subst digits_of.simps) simp

lemma digits_of_large:
  "10 \<le> n \<Longrightarrow> digits_of n = digits_of (n div 10) @ [''0123456789'' ! (n mod 10)]"
  by (subst digits_of.simps) simp

lemmas digits_eval = digits_of_small digits_of_large

lemma toFixed_2_of_50: "toFixed 2 50 = Some ''50.00''"
  by (simp add: toFixed_def Let_def floor_eq_iff digits_eval)

lemma toFixed_8_of_half: "toFixed 8 0.5 = Some ''0.50000000''"
  by (simp add: toFixed_def Let_def floor_eq_iff digits_eval)

lemma toFixed_2_of_1500: "toFixed 2 1500 = Some ''1500.00''"
  by (simp add: toFixed_def Let_def floor_eq_iff digits_eval)

text \<open>Below \<open>10 ^ 21\<close> the result of \<open>toFixed f\<close> has exactly \<open>f\<close> characters after its point.\<close>

lemma toFixed_fraction_digits:
  assumes "\<bar>x\<bar> < 10 ^ 21" and "0 < f"
  shows "\<exists>a b. toFixed f x = Some (a @ ''.'' @ b) \<and> length b = f"
proof -
  define m0 where "m0 = digits_of (nat \<lfloor>\<bar>x\<bar> * 10 ^ f + 1 / 2\<rfloor>)"
  define m1 where
    "m1 = (if length m0 \<le> f then replicate (f + 1 - length m0) (CHR ''0'') @ m0 else m0)"
  define s where "s = (if x < 0 then ''-'' else [])"
  have len: "f \<le> length m1" by (simp add: m1_def)
  have "toFixed f x = Some ((s @ take (length m1 - f) m1) @ ''.'' @ drop (length m1 - f) m1)"
    using assms by (simp add: toFixed_def Let_def m0_def m1_def s_def)
  moreover have "length (drop (length m1 - f) m1) = f"
    using len by simp
  ultimately show ?thesis by blast
qed

text \<open>
  Claim C6. \<open>percentChange\<close> is \<open>(current - first) / first * 100\<close> formatted by \<open>toFixed 2\<close>
  whenever the window is non-empty and its first sample is not \<open>0\<close>; it is the string
  \<open>0.00\<close> when the first sample is \<open>0\<close> or the window is empty; and a current price of 150
  over a first sample of 100 gives \<open>50.00\<close>.
\<close>

theorem percentChange_formats_relative_change:
  "(ds \<noteq> [] \<and> hd ds \<noteq> 0 \<longrightarrow> percentChange p ds = toFixed 2 ((p - hd ds) / hd ds * 100))
   \<and> (ds = [] \<or> hd ds = 0 \<longrightarrow> percentChange p ds = Some ''0.00'')
   \<and> percentChange 150 (100 # ds) = Some ''50.00''"
proof (intro conjI)
  show "ds \<noteq> [] \<and> hd ds \<noteq> 0 \<longrightarrow> percentChange p ds = toFixed 2 ((p - hd ds) / hd ds * 100)"
    by (cases ds) (simp_all add: percentChange_def)
  show "ds = [] \<or> hd ds = 0 \<longrightarrow> percentChange p ds = Some ''0.00''"
    by (cases ds) (simp_all add: percentChange_def)
  have "(150 - 100) / 100 * 100 = (50::real)" by simp
  then show "percentChange 150 (100 # ds) = Some ''50.00''"
    by (simp add: percentChange_def toFixed_2_of_50)
qed

text \<open>The window \<open>[100, 150]\<close> of the spec, a window that starts with \<open>0\<close>, and no window.\<close>

theorem percentChange_formats_relative_change_witness:
  "[100, 150] \<noteq> [] \<and> hd [100, 150 :: real] \<noteq> 0
   \<and> percentChange 150 [100, 150] = Some ''50.00''
   \<and> percentChange 150 [0, 150] = Some ''0.00''
   \<and> percentChange 150 [] = Some ''0.00''"
proof -
  have a: "[100, 150 :: real] \<noteq> [] \<and> hd [100, 150 :: real] \<noteq> 0" by simp
  have b: "hd [0, 150 :: real] = 0" by simp
  have c: "(150 - hd [100, 150]) / hd [100, 150] * 100 = (50::real)" by simp
  from percentChange_formats_relative_change [of "[100, 150]" 150] a c
  have "percentChange 150 [100, 150] = Some ''50.00''"
    by (simp add: toFixed_2_of_50)
  moreover from percentChange_formats_relative_change [of "[0, 150]" 150] b
  have "percentChange 150 [0, 150] = Some ''0.00''" by simp
  moreover from percentChange_formats_relative_change [of "[]" 150]
  have "percentChange 150 [] = Some ''0.00''" by simp
  ultimately show ?thesis by simp
qed

text \<open>
  Claim C7. The price readout is the string \<open>0.00\<close> for the flatline instrument whatever
  the price; for every other instrument it is \<open>toFixed 8\<close> of the price when the price is
  below \<open>1\<close> and \<open>toFixed 2\<close> of it otherwise, so \<open>0.5\<close> reads \<open>0.50000000\<close> and \<open>1500\<close> reads
  \<open>1500.00\<close>; the readout then has eight, respectively two, characters after its point
  (for a price below \<open>10 ^ 21\<close>, where \<open>toFixed\<close> writes fixed notation).
\<close>

theorem priceDisplay_dual_precision:
  "(coin_id coin = ''GAFR'' \<longrightarrow> priceDisplay coin p = Some ''0.00'')
   \<and> (coin_id coin \<noteq> ''GAFR'' \<and> p < 1 \<longrightarrow> priceDisplay coin p = toFixed 8 p)
   \<and> (coin_id coin \<noteq> ''GAFR'' \<and> \<not> p < 1 \<longrightarrow> priceDisplay coin p = toFixed 2 p)
   \<and> (coin_id coin \<noteq> ''GAFR'' \<longrightarrow>
        priceDisplay coin 0.5 = Some ''0.50000000'' \<and> priceDisplay coin 1500 = Some ''1500.00'')
   \<and> (coin_id coin \<noteq> ''GAFR'' \<and> \<bar>p\<bar> < 10 ^ 21 \<longrightarrow>
        (\<exists>a b. priceDisplay coin p = Some (a @ ''.'' @ b)
               \<and> length b = (if p < 1 then 8 else 2)))"
proof (intro conjI impI)
  assume "coin_id coin = ''GAFR''"
  then show "priceDisplay coin p = Some ''0.00''" by (simp add: priceDisplay_def)
next
  assume "coin_id coin \<noteq> ''GAFR'' \<and> p < 1"
  then show "priceDisplay coin p = toFixed 8 p" by (simp add: priceDisplay_def)
next
  assume "coin_id coin \<noteq> ''GAFR'' \<and> \<not> p < 1"
  then show "priceDisplay coin p = toFixed 2 p" by (simp add: priceDisplay_def)
next
  assume "coin_id coin \<noteq> ''GAFR''"
  then show "priceDisplay coin 0.5 = Some ''0.50000000''"
    using toFixed_8_of_half by (simp add: priceDisplay_def)
next
  assume "coin_id coin \<noteq> ''GAFR''"
  then show "priceDisplay coin 1500 = Some ''1500.00''"
    using toFixed_2_of_1500 by (simp add: priceDisplay_def)
next
  assume h: "coin_id coin \<noteq> ''GAFR'' \<and> \<bar>p\<bar> < 10 ^ 21"
  show "\<exists>a b. priceDisplay coin p = Some (a @ ''.'' @ b) \<and> length b = (if p < 1 then 8 else 2)"
  proof (cases "p < 1")
    case True
    with h toFixed_fraction_digits [of p 8] show ?thesis by (simp add: priceDisplay_def)
  next
    case False
    with h toFixed_fraction_digits [of p 2] show ?thesis by (simp add: priceDisplay_def)
  qed
qed

text \<open>The two examples at base price 100, and the flatline instrument at price 1500.\<close>

theorem priceDisplay_dual_precision_witness:
  "coin_id coin_100 \<noteq> ''GAFR'' \<and> coin_id coin_gafr = ''GAFR''
   \<and> priceDisplay coin_100 0.5 = Some ''0.50000000''
   \<and> priceDisplay coin_100 1500 = Some ''1500.00''
   \<and> priceDisplay coin_gafr 1500 = Some ''0.00''"
proof -
  have a: "coin_id coin_100 \<noteq> ''GAFR''" by (simp add: coin_100_def)
  have b: "coin_id coin_gafr = ''GAFR''" by (simp add: coin_gafr_def)
  from priceDisplay_dual_precision [of coin_100 0] a
  have "priceDisplay coin_100 0.5 = Some ''0.50000000''"
    and "priceDisplay coin_100 1500 = Some ''1500.00''" by simp_all
  moreover from priceDisplay_dual_precision [of coin_gafr 1500] b
  have "priceDisplay coin_gafr 1500 = Some ''0.00''" by simp
  ultimately show ?thesis using a b by simp
qed

section \<open>The sparkline's axis domain\<close>

lemma Math_min_Cons: "Math_min (x # xs) = Some (Min (set (x # xs)))"
  by (simp only: Math_min_def list.case Min.set_eq_fold)

lemma Math_max_Cons: "Math_max (x # xs) = Some (Max (set (x # xs)))"
  by (simp only: Math_max_def list.case Max.set_eq_fold)

lemma Math_min_nonempty: "xs \<noteq> [] \<Longrightarrow> Math_min xs = Some (Min (set xs))"
  by (cases xs) (simp, simp only: Math_min_Cons)

lemma Math_max_nonempty: "xs \<noteq> [] \<Longrightarrow> Math_max xs = Some (Max (set xs))"
  by (cases xs) (simp, simp only: Math_max_Cons)

text \<open>
  Claim C9. For every non-empty data window the sparkline's vertical axis runs from
  \<open>min * 0.99\<close> to \<open>max * 1.01\<close> in compact mode and from \<open>min * 0.999\<close> to \<open>max * 1.001\<close> in
  detailed mode, \<open>min\<close> and \<open>max\<close> being the least and the greatest value of the window.
\<close>

theorem PriceChart_domain_bounds:
  assumes "pdata \<noteq> []"
  shows "PriceChart_domain pdata False =
           Some (Min (pp_value ` set pdata) * 0.99, Max (pp_value ` set pdata) * 1.01)
       \<and> PriceChart_domain pdata True =
           Some (Min (pp_value ` set pdata) * 0.999, Max (pp_value ` set pdata) * 1.001)"
proof -
  have "map pp_value pdata \<noteq> []" using assms by simp
  then have "Math_min (map pp_value pdata) = Some (Min (pp_value ` set pdata))"
    and "Math_max (map pp_value pdata) = Some (Max (pp_value ` set pdata))"
    by (simp_all add: Math_min_nonempty Math_max_nonempty)
  then show ?thesis using assms by (simp add: PriceChart_domain_def Let_def)
qed

text \<open>A window with the values 200 and 100: the domain is \<open>(99, 202)\<close>, detailed \<open>(99.9, 200.2)\<close>.\<close>

theorem PriceChart_domain_bounds_witness:
  "[\<lparr>time = ''10:00:00'', pp_value = 200\<rparr>, \<lparr>time = ''10:00:01'', pp_value = 100\<rparr>] \<noteq> []
   \<and> PriceChart_domain
        [\<lparr>time = ''10:00:00'', pp_value = 200\<rparr>, \<lparr>time = ''10:00:01'', pp_value = 100\<rparr>] False
       = Some (99, 202)
   \<and> PriceChart_domain
        [\<lparr>time = ''10:00:00'', pp_value = 200\<rparr>, \<lparr>time = ''10:00:01'', pp_value = 100\<rparr>] True
       = Some (99.9, 200.2)"
proof -
  let ?w = "[\<lparr>time = ''10:00:00'', pp_value = 200\<rparr>, \<lparr>time = ''10:00:01'', pp_value = 100\<rparr>]"
  have a: "?w \<noteq> []" by simp
  from PriceChart_domain_bounds [OF a] show ?thesis by simp
qed


end
